theory Spec2Isabelle
  imports Complex_Main
begin

section \<open>The SAD virtual machine (SAD_VM.py)\<close>

text \<open>
  A shallow embedding of the class \<open>Machine\<close> of SAD_VM.py. The Python objects the
  machine handles are integers (unbounded) and \<open>None\<close>, the placeholder the sample
  programs use as a jump target. An instruction is a tuple; it is kept as the list of
  its fields, opcode first, since the handlers index it positionally and an
  instruction that is too short raises \<open>IndexError\<close> there.
\<close>

subsection \<open>Values, exceptions, the environment\<close>

datatype val = IntV int | NoneV

datatype error =
    IndexError
  | KeyError val
  | TypeError
  | ZeroDivisionError
  | ValueError
  | OverflowError
  | EOFError
  | SystemExit

text \<open>
  One line of standard input: either the text of an integer (what \<open>int(input())\<close>
  accepts) or anything else. What \<open>print\<close> wrote is kept as a list of events.
\<close>

datatype in_line = IntLine int | BadLine

datatype out_ev =
    OutVal val
  | OutNewline
  | OutChr int
  | OutMsg string
  | OutMsgFmt string val

subsection \<open>Constants of the instruction set\<close>

abbreviation (input) MOV :: int where "MOV \<equiv> 0"
abbreviation (input) MEM :: int where "MEM \<equiv> 1"
abbreviation (input) LIMM :: int where "LIMM \<equiv> 2"
abbreviation (input) MATH :: int where "MATH \<equiv> 3"
abbreviation (input) MATHI :: int where "MATHI \<equiv> 4"
abbreviation (input) COMP :: int where "COMP \<equiv> 5"
abbreviation (input) LOG :: int where "LOG \<equiv> 6"
abbreviation (input) CNT :: int where "CNT \<equiv> 7"
abbreviation (input) LOOP :: int where "LOOP \<equiv> 8"
abbreviation (input) JMP :: int where "JMP \<equiv> 9"
abbreviation (input) JMPC :: int where "JMPC \<equiv> 10"
abbreviation (input) JMPR :: int where "JMPR \<equiv> 11"
abbreviation (input) RET :: int where "RET \<equiv> 12"
abbreviation (input) INC :: int where "INC \<equiv> 13"
abbreviation (input) DEC :: int where "DEC \<equiv> 14"
abbreviation (input) STCK :: int where "STCK \<equiv> 15"

abbreviation (input) ADD :: int where "ADD \<equiv> 0"
abbreviation (input) SUB :: int where "SUB \<equiv> 1"
abbreviation (input) MULT :: int where "MULT \<equiv> 2"
abbreviation (input) DIV :: int where "DIV \<equiv> 3"

abbreviation (input) LOAD :: int where "LOAD \<equiv> 0"
abbreviation (input) STOR :: int where "STOR \<equiv> 1"

abbreviation (input) PUSH :: int where "PUSH \<equiv> 0"
abbreviation (input) POP :: int where "POP \<equiv> 1"

abbreviation (input) EQ :: int where "EQ \<equiv> 0"
abbreviation (input) NEQ :: int where "NEQ \<equiv> 1"
abbreviation (input) LT :: int where "LT \<equiv> 2"
abbreviation (input) GT :: int where "GT \<equiv> 3"
abbreviation (input) LTE :: int where "LTE \<equiv> 4"
abbreviation (input) GTE :: int where "GTE \<equiv> 5"

abbreviation (input) PC :: val where "PC \<equiv> IntV 0"
abbreviation (input) R_CNT :: val where "R_CNT \<equiv> IntV 1"
abbreviation (input) R_0 :: val where "R_0 \<equiv> IntV 2"
abbreviation (input) R_1 :: val where "R_1 \<equiv> IntV 3"

abbreviation (input) IO_IN :: int where "IO_IN \<equiv> 65280"
abbreviation (input) IO_OUT :: int where "IO_OUT \<equiv> 4294901760"
abbreviation (input) IO_CHR :: int where "IO_CHR \<equiv> 4294901761"

subsection \<open>The machine state\<close>

text \<open>
  The fields of \<open>Machine\<close>; \<open>regs\<close> and \<open>mem\<close> are Python dictionaries, so a
  key that was never stored is absent and reading it raises \<open>KeyError\<close>. The two
  streams are the process's standard input and output.
\<close>

record machine =
  program :: "val list list"
  cond :: int
  ra :: val
  regs :: "val \<rightharpoonup> val"
  stack :: "val list"
  mem :: "val \<rightharpoonup> val"
  stdin :: "in_line list"
  stdout :: "out_ev list"

type_synonym result = "(error \<times> machine) + machine"

definition init :: "val list list \<Rightarrow> in_line list \<Rightarrow> machine" where
  "init prog inp =
     \<lparr> program = prog, cond = 0, ra = IntV 0,
       regs = (\<lambda>k. case k of IntV i \<Rightarrow> if 0 \<le> i \<and> i < 16 then Some (IntV 0) else None
                            | NoneV \<Rightarrow> None),
       stack = [], mem = Map.empty, stdin = inp, stdout = [] \<rparr>"

subsection \<open>Python primitives\<close>

text \<open>\<open>t[k]\<close> on a tuple, for the constant indices the handlers use.\<close>

definition idx :: "val list \<Rightarrow> nat \<Rightarrow> error + val" where
  "idx t k = (if k < length t then Inr (t ! k) else Inl IndexError)"

text \<open>\<open>d[k]\<close> on a dictionary.\<close>

definition getitem :: "(val \<rightharpoonup> 'a) \<Rightarrow> val \<Rightarrow> error + 'a" where
  "getitem d k = (case d k of None \<Rightarrow> Inl (KeyError k) | Some v \<Rightarrow> Inr v)"

text \<open>\<open>xs[i]\<close> on a list: a negative index counts from the end.\<close>

definition list_at :: "'a list \<Rightarrow> int \<Rightarrow> error + 'a" where
  "list_at xs i =
     (let n = int (length xs); j = (if i < 0 then i + n else i)
      in if 0 \<le> j \<and> j < n then Inr (xs ! nat j) else Inl IndexError)"

definition py_add :: "val \<Rightarrow> val \<Rightarrow> error + val" where
  "py_add a b = (case (a, b) of (IntV x, IntV y) \<Rightarrow> Inr (IntV (x + y)) | _ \<Rightarrow> Inl TypeError)"

definition py_sub :: "val \<Rightarrow> val \<Rightarrow> error + val" where
  "py_sub a b = (case (a, b) of (IntV x, IntV y) \<Rightarrow> Inr (IntV (x - y)) | _ \<Rightarrow> Inl TypeError)"

definition py_mul :: "val \<Rightarrow> val \<Rightarrow> error + val" where
  "py_mul a b = (case (a, b) of (IntV x, IntV y) \<Rightarrow> Inr (IntV (x * y)) | _ \<Rightarrow> Inl TypeError)"

text \<open>\<open>a // b\<close>: on integers HOL's \<open>div\<close> rounds down, as Python's does.\<close>

definition py_floordiv :: "val \<Rightarrow> val \<Rightarrow> error + val" where
  "py_floordiv a b =
     (case (a, b) of
        (IntV x, IntV y) \<Rightarrow> if y = 0 then Inl ZeroDivisionError else Inr (IntV (x div y))
      | _ \<Rightarrow> Inl TypeError)"

text \<open>The ordering comparisons; \<open>==\<close> and \<open>!=\<close> are HOL's equality on \<open>val\<close>.\<close>

definition py_cmp :: "(int \<Rightarrow> int \<Rightarrow> bool) \<Rightarrow> val \<Rightarrow> val \<Rightarrow> error + bool" where
  "py_cmp r a b = (case (a, b) of (IntV x, IntV y) \<Rightarrow> Inr (r x y) | _ \<Rightarrow> Inl TypeError)"

definition int_of_bool :: "bool \<Rightarrow> int" where
  "int_of_bool b = (if b then 1 else 0)"

text \<open>
  \<open>chr(v)\<close>: CPython first converts the argument to a C \<open>int\<close> and raises
  \<open>OverflowError\<close> when it does not fit in 32 bits; a value that fits but is no
  code point (outside \<open>range(0x110000)\<close>) raises \<open>ValueError\<close>.
\<close>

definition py_chr :: "val \<Rightarrow> error + int" where
  "py_chr v =
     (case v of NoneV \<Rightarrow> Inl TypeError
      | IntV c \<Rightarrow>
          if c < - 2147483648 \<or> 2147483647 < c then Inl OverflowError
          else if 0 \<le> c \<and> c < 1114112 then Inr c
          else Inl ValueError)"

text \<open>Truth value of an object: \<open>None\<close> and \<open>0\<close> are false.\<close>

definition truthy :: "val \<Rightarrow> bool" where
  "truthy v = (case v of NoneV \<Rightarrow> False | IntV n \<Rightarrow> n \<noteq> 0)"

text \<open>
  Evaluate something that may raise, in state \<open>s\<close>: the exception leaves the handler
  with the state as it is at that moment.
\<close>

definition attempt :: "machine \<Rightarrow> error + 'a \<Rightarrow> ('a \<Rightarrow> result) \<Rightarrow> result" where
  "attempt s r k = (case r of Inl e \<Rightarrow> Inl (e, s) | Inr x \<Rightarrow> k x)"

definition set_reg :: "machine \<Rightarrow> val \<Rightarrow> val \<Rightarrow> machine" where
  "set_reg s k v = s\<lparr>regs := (regs s)(k \<mapsto> v)\<rparr>"

definition print :: "machine \<Rightarrow> out_ev \<Rightarrow> machine" where
  "print s ev = s\<lparr>stdout := stdout s @ [ev]\<rparr>"

subsection \<open>The handlers\<close>

definition mov_op :: "machine \<Rightarrow> val list \<Rightarrow> result" where
  "mov_op s rest =
     attempt s (idx rest 0) (\<lambda>dst.
     attempt s (idx rest 1) (\<lambda>src.
     attempt s (getitem (regs s) src) (\<lambda>v.
     Inr (set_reg s dst v))))"

text \<open>\<open>regs[dst] = regs[src1] <op> regs[src2]\<close>\<close>

definition reg_binop ::
  "machine \<Rightarrow> (val \<Rightarrow> val \<Rightarrow> error + val) \<Rightarrow> val \<Rightarrow> val \<Rightarrow> val \<Rightarrow> result" where
  "reg_binop s f dst src1 src2 =
     attempt s (getitem (regs s) src1) (\<lambda>a.
     attempt s (getitem (regs s) src2) (\<lambda>b.
     attempt s (f a b) (\<lambda>v.
     Inr (set_reg s dst v))))"

definition math_op :: "machine \<Rightarrow> val list \<Rightarrow> result" where
  "math_op s rest =
     attempt s (idx rest 0) (\<lambda>dst.
     attempt s (idx rest 1) (\<lambda>src1.
     attempt s (idx rest 2) (\<lambda>src2.
     attempt s (idx rest 3) (\<lambda>mode.
     if mode = IntV ADD then reg_binop s py_add dst src1 src2
     else if mode = IntV SUB then reg_binop s py_sub dst src1 src2
     else if mode = IntV MULT then reg_binop s py_mul dst src1 src2
     else if mode = IntV DIV then reg_binop s py_floordiv dst src1 src2
     else Inl (SystemExit,
               print s (OutMsg ''ERROR(math_op): math mode flag not found''))))))"

text \<open>\<open>regs[dst] <op>= imm\<close>\<close>

definition reg_imm :: "machine \<Rightarrow> (val \<Rightarrow> val \<Rightarrow> error + val) \<Rightarrow> val \<Rightarrow> val \<Rightarrow> result" where
  "reg_imm s f dst imm =
     attempt s (getitem (regs s) dst) (\<lambda>a.
     attempt s (f a imm) (\<lambda>v.
     Inr (set_reg s dst v)))"

definition mathi_op :: "machine \<Rightarrow> val list \<Rightarrow> result" where
  "mathi_op s rest =
     attempt s (idx rest 0) (\<lambda>dst.
     attempt s (idx rest 1) (\<lambda>mode.
     attempt s (idx rest 2) (\<lambda>imm.
     if mode = IntV ADD then reg_imm s py_add dst imm
     else if mode = IntV SUB then reg_imm s py_sub dst imm
     else if mode = IntV MULT then reg_imm s py_mul dst imm
     else if mode = IntV DIV then reg_imm s py_floordiv dst imm
     else Inl (SystemExit,
               print s (OutMsgFmt ''ERROR(mathi_op): math mode flag not found ({})'' mode)))))"

definition mem_op :: "machine \<Rightarrow> val list \<Rightarrow> result" where
  "mem_op s rest =
     attempt s (idx rest 0) (\<lambda>dst.
     attempt s (idx rest 1) (\<lambda>src.
     attempt s (idx rest 2) (\<lambda>mode.
     if mode = IntV LOAD then
       if src = IntV IO_IN then
         (case stdin s of
            [] \<Rightarrow> Inl (EOFError, s)
          | BadLine # ls \<Rightarrow> Inl (ValueError, s\<lparr>stdin := ls\<rparr>)
          | IntLine n # ls \<Rightarrow> Inr (set_reg (s\<lparr>stdin := ls\<rparr>) dst (IntV n)))
       else
         attempt s (getitem (regs s) src) (\<lambda>a.
         attempt s (getitem (mem s) a) (\<lambda>v.
         Inr (set_reg s dst v)))
     else if mode = IntV STOR then
       if dst = IntV IO_OUT then
         attempt s (getitem (regs s) src) (\<lambda>v. Inr (print s (OutVal v)))
       else if dst = IntV IO_CHR then
         attempt s (getitem (regs s) src) (\<lambda>v.
         if v = IntV 0 then Inr (print s OutNewline)
         else attempt s (py_chr v) (\<lambda>c. Inr (print s (OutChr c))))
       else
         attempt s (getitem (regs s) src) (\<lambda>v.
         attempt s (getitem (regs s) dst) (\<lambda>a.
         Inr (s\<lparr>mem := (mem s)(a \<mapsto> v)\<rparr>)))
     else Inr s)))"

definition limm_op :: "machine \<Rightarrow> val list \<Rightarrow> result" where
  "limm_op s rest =
     attempt s (idx rest 0) (\<lambda>dst.
     attempt s (idx rest 1) (\<lambda>v.
     Inr (set_reg s dst v)))"

definition jmp_op :: "machine \<Rightarrow> val list \<Rightarrow> result" where
  "jmp_op s rest = attempt s (idx rest 0) (\<lambda>t. Inr (set_reg s PC t))"

definition jmpc_op :: "machine \<Rightarrow> val list \<Rightarrow> result" where
  "jmpc_op s rest =
     (if cond s = 0 then attempt s (idx rest 0) (\<lambda>t. Inr (set_reg s PC t))
      else Inr s)"

definition jmpr_op :: "machine \<Rightarrow> val list \<Rightarrow> result" where
  "jmpr_op s rest =
     attempt s (getitem (regs s) PC) (\<lambda>p.
     let s1 = s\<lparr>ra := p\<rparr> in
     attempt s1 (idx rest 0) (\<lambda>t.
     Inr (set_reg s1 PC t)))"

definition ret_op :: "machine \<Rightarrow> val list \<Rightarrow> result" where
  "ret_op s rest = Inr (set_reg s PC (ra s))"

text \<open>\<open>cond = int(regs[reg1] <cmp> regs[reg2])\<close>\<close>

definition reg_cmp :: "machine \<Rightarrow> (val \<Rightarrow> val \<Rightarrow> error + bool) \<Rightarrow> val \<Rightarrow> val \<Rightarrow> result" where
  "reg_cmp s f reg1 reg2 =
     attempt s (getitem (regs s) reg1) (\<lambda>a.
     attempt s (getitem (regs s) reg2) (\<lambda>b.
     attempt s (f a b) (\<lambda>r.
     Inr (s\<lparr>cond := int_of_bool r\<rparr>))))"

definition comp_op :: "machine \<Rightarrow> val list \<Rightarrow> result" where
  "comp_op s rest =
     attempt s (idx rest 0) (\<lambda>reg1.
     attempt s (idx rest 1) (\<lambda>reg2.
     attempt s (idx rest 2) (\<lambda>mode.
     if mode = IntV EQ then reg_cmp s (\<lambda>a b. Inr (a = b)) reg1 reg2
     else if mode = IntV NEQ then reg_cmp s (\<lambda>a b. Inr (a \<noteq> b)) reg1 reg2
     else if mode = IntV LT then reg_cmp s (py_cmp (<)) reg1 reg2
     else if mode = IntV GT then reg_cmp s (py_cmp (>)) reg1 reg2
     else if mode = IntV LTE then reg_cmp s (py_cmp (\<le>)) reg1 reg2
     else if mode = IntV GTE then reg_cmp s (py_cmp (\<ge>)) reg1 reg2
     else Inl (SystemExit,
               print s (OutMsg ''ERROR(comp_op): comparison mode flag not found.'')))))"

definition cnt_op :: "machine \<Rightarrow> val list \<Rightarrow> result" where
  "cnt_op s rest = attempt s (idx rest 0) (\<lambda>v. Inr (set_reg s R_CNT v))"

definition loop_op :: "machine \<Rightarrow> val list \<Rightarrow> result" where
  "loop_op s rest =
     attempt s (getitem (regs s) R_CNT) (\<lambda>c.
     attempt s (py_sub c (IntV 1)) (\<lambda>c'.
     let s1 = set_reg s R_CNT c' in
     if truthy c' then attempt s1 (idx rest 0) (\<lambda>t. Inr (set_reg s1 PC t))
     else Inr s1))"

definition inc_op :: "machine \<Rightarrow> val list \<Rightarrow> result" where
  "inc_op s rest =
     attempt s (idx rest 0) (\<lambda>r.
     attempt s (getitem (regs s) r) (\<lambda>a.
     attempt s (py_add a (IntV 1)) (\<lambda>v.
     Inr (set_reg s r v))))"

definition dec_op :: "machine \<Rightarrow> val list \<Rightarrow> result" where
  "dec_op s rest =
     attempt s (idx rest 0) (\<lambda>r.
     attempt s (getitem (regs s) r) (\<lambda>a.
     attempt s (py_sub a (IntV 1)) (\<lambda>v.
     Inr (set_reg s r v))))"

text \<open>The stack is a Python list: \<open>append\<close> adds at the end, \<open>pop\<close> takes from there.\<close>

definition stck_op :: "machine \<Rightarrow> val list \<Rightarrow> result" where
  "stck_op s rest =
     attempt s (idx rest 0) (\<lambda>reg.
     attempt s (idx rest 1) (\<lambda>mode.
     if mode = IntV PUSH then
       attempt s (getitem (regs s) reg) (\<lambda>v. Inr (s\<lparr>stack := stack s @ [v]\<rparr>))
     else if mode = IntV POP then
       (if stack s = [] then Inl (IndexError, s)
        else Inr (set_reg (s\<lparr>stack := butlast (stack s)\<rparr>) reg (last (stack s))))
     else Inr s))"

subsection \<open>Dispatch and the execution loop\<close>

text \<open>The dictionary \<open>self.ops\<close>; it has no entry for \<open>LOG\<close>.\<close>

definition ops :: "val \<rightharpoonup> (machine \<Rightarrow> val list \<Rightarrow> result)" where
  "ops op =
     (if op = IntV MOV then Some mov_op
      else if op = IntV MEM then Some mem_op
      else if op = IntV LIMM then Some limm_op
      else if op = IntV MATH then Some math_op
      else if op = IntV MATHI then Some mathi_op
      else if op = IntV COMP then Some comp_op
      else if op = IntV CNT then Some cnt_op
      else if op = IntV LOOP then Some loop_op
      else if op = IntV JMP then Some jmp_op
      else if op = IntV JMPC then Some jmpc_op
      else if op = IntV JMPR then Some jmpr_op
      else if op = IntV RET then Some ret_op
      else if op = IntV INC then Some inc_op
      else if op = IntV DEC then Some dec_op
      else if op = IntV STCK then Some stck_op
      else None)"

text \<open>
  The body of the \<open>while\<close> loop of \<open>run\<close>, entered with an integer in \<open>regs[PC]\<close>:
  fetch, advance the program counter, split the tuple, dispatch.
\<close>

definition body :: "machine \<Rightarrow> int \<Rightarrow> result" where
  "body s i =
     attempt s (list_at (program s) i) (\<lambda>instruct.
     let s1 = set_reg s PC (IntV (i + 1)) in
     attempt s1 (idx instruct 0) (\<lambda>op.
     let rest = drop 1 instruct in
     attempt s1 (getitem ops op) (\<lambda>handler.
     handler s1 rest)))"

text \<open>
  How \<open>run\<close> ends: it returns (\<open>None\<close> when the loop condition fails, \<open>0\<close> from the
  \<open>except IndexError\<close> clause) or an exception other than \<open>IndexError\<close> leaves it.
\<close>

datatype outcome = Returned val | Raised error

text \<open>
  \<open>run\<close>: the loop may go on forever, so the result is optional; \<open>None\<close> is a run
  that does not end.
\<close>

partial_function (option) run :: "machine \<Rightarrow> (outcome \<times> machine) option" where
  "run s =
     (case getitem (regs s) PC of
        Inl e \<Rightarrow> Some (Raised e, s)
      | Inr NoneV \<Rightarrow> Some (Returned NoneV, s)
      | Inr (IntV i) \<Rightarrow>
          (case body s i of
             Inl (e, s') \<Rightarrow>
               if e = IndexError then Some (Returned (IntV 0), s') else Some (Raised e, s')
           | Inr s' \<Rightarrow> run s'))"

subsection \<open>Programs used as concrete inputs\<close>

text \<open>
  \<open>wrap_prog\<close>: a jump to \<open>-1\<close> followed by a \<open>MATH\<close> with a mode that does not
  exist. \<open>pop_prog\<close>: a single pop, run on the empty stack. \<open>load_prog\<close>: a single
  load from the address held in \<open>R_1\<close>.
\<close>

definition wrap_prog :: "val list list" where
  "wrap_prog = [[IntV JMP, IntV (- 1)], [IntV MATH, R_0, R_0, R_0, IntV 9]]"

definition pop_prog :: "val list list" where
  "pop_prog = [[IntV STCK, R_0, IntV POP]]"

definition load_prog :: "val list list" where
  "load_prog = [[IntV MEM, R_0, R_1, IntV LOAD]]"

text \<open>
  \<open>unset_prog\<close> loads from address \<open>6\<close>, which nothing has stored to;
  \<open>log_prog\<close> is the one instruction \<open>LOG\<close>, the opcode \<open>6\<close> that \<open>self.ops\<close>
  has no handler for.
\<close>

definition unset_prog :: "val list list" where
  "unset_prog = [[IntV LIMM, R_1, IntV 6], [IntV MEM, R_0, R_1, IntV LOAD]]"

definition log_prog :: "val list list" where
  "log_prog = [[IntV LOG]]"

definition cmp_prog :: "val list list" where
  "cmp_prog = [[IntV COMP, R_0, R_1, IntV EQ], [IntV JMPC, IntV 7]]"

definition call_prog :: "val list list" where
  "call_prog = [[IntV JMPR, IntV 2], [IntV JMP, IntV 99], [IntV INC, R_0], [IntV RET]]"

definition none_prog :: "val list list" where
  "none_prog = [[IntV JMPC, NoneV]]"

text \<open>
  \<open>count_prog n\<close> is the counted loop: set \<open>CNT\<close> to \<open>n\<close>; the body increments
  \<open>R_0\<close>, so \<open>R_0\<close> counts how often the body ran; \<open>LOOP\<close> back to the body.
\<close>

definition count_prog :: "int \<Rightarrow> val list list" where
  "count_prog n = [[IntV CNT, IntV n], [IntV INC, R_0], [IntV LOOP, IntV 1]]"

subsection \<open>Predicates used in the statements\<close>

text \<open>
  A \<open>MATH\<close>, \<open>MATHI\<close> or \<open>COMP\<close> tuple that has its mode operand, with a mode
  outside the ones the handler tests for.
\<close>

definition bad_mode_instr :: "val list \<Rightarrow> bool" where
  "bad_mode_instr ins =
     (case ins of
        [] \<Rightarrow> False
      | op # rest \<Rightarrow>
          (op = IntV MATH \<and> 3 < length rest \<and>
             rest ! 3 \<notin> set [IntV ADD, IntV SUB, IntV MULT, IntV DIV]) \<or>
          (op = IntV MATHI \<and> 2 < length rest \<and>
             rest ! 1 \<notin> set [IntV ADD, IntV SUB, IntV MULT, IntV DIV]) \<or>
          (op = IntV COMP \<and> 2 < length rest \<and>
             rest ! 2 \<notin> set [IntV EQ, IntV NEQ, IntV LT, IntV GT, IntV LTE, IntV GTE]))"

text \<open>
  \<open>runs_without_jmpr s s'\<close>: the loop gets from \<open>s\<close> to \<open>s'\<close> in some number of
  iterations, none of which dispatches \<open>JMPR\<close>.
\<close>

inductive runs_without_jmpr :: "machine \<Rightarrow> machine \<Rightarrow> bool" where
  here: "runs_without_jmpr s s"
| iter: "runs_without_jmpr s s1 \<Longrightarrow> regs s1 PC = Some (IntV i) \<Longrightarrow>
         list_at (program s1) i = Inr ins \<Longrightarrow> idx ins 0 \<noteq> Inr (IntV JMPR) \<Longrightarrow>
         body s1 i = Inr s2 \<Longrightarrow> runs_without_jmpr s s2"

section \<open>Basic facts\<close>

lemma idx_simps [simp]:
  "idx (a # t) 0 = Inr a"
  "idx (a # b # t) (Suc 0) = Inr b"
  "idx (a # b # c # t) 2 = Inr c"
  "idx (a # b # c # d # t) 3 = Inr d"
  "idx [] k = Inl IndexError"
  by (simp_all add: idx_def)

lemma attempt_simps [simp]:
  "attempt s (Inr x) k = k x"
  "attempt s (Inl e) k = Inl (e, s)"
  by (simp_all add: attempt_def)

lemma getitem_simps [simp]:
  "d k = Some v \<Longrightarrow> getitem d k = Inr v"
  "d k = None \<Longrightarrow> getitem d k = Inl (KeyError k)"
  by (simp_all add: getitem_def)

lemma set_reg_simps [simp]:
  "regs (set_reg s k v) = (regs s)(k \<mapsto> v)"
  "program (set_reg s k v) = program s"
  "cond (set_reg s k v) = cond s"
  "ra (set_reg s k v) = ra s"
  "stack (set_reg s k v) = stack s"
  "mem (set_reg s k v) = mem s"
  "stdin (set_reg s k v) = stdin s"
  "stdout (set_reg s k v) = stdout s"
  by (simp_all add: set_reg_def)

lemma ops_simps [simp]:
  "ops (IntV 0) = Some mov_op"
  "ops (IntV 1) = Some mem_op"
  "ops (IntV 2) = Some limm_op"
  "ops (IntV 3) = Some math_op"
  "ops (IntV 4) = Some mathi_op"
  "ops (IntV 5) = Some comp_op"
  "ops (IntV 6) = None"
  "ops (IntV 7) = Some cnt_op"
  "ops (IntV 8) = Some loop_op"
  "ops (IntV 9) = Some jmp_op"
  "ops (IntV 10) = Some jmpc_op"
  "ops (IntV 11) = Some jmpr_op"
  "ops (IntV 12) = Some ret_op"
  "ops (IntV 13) = Some inc_op"
  "ops (IntV 14) = Some dec_op"
  "ops (IntV 15) = Some stck_op"
  "ops NoneV = None"
  by (simp_all add: ops_def)

lemma list_at_out_of_range:
  "int (length xs) \<le> i \<or> i < - int (length xs) \<Longrightarrow> list_at xs i = Inl IndexError"
  by (auto simp: list_at_def Let_def)

lemma list_at_in_range:
  "0 \<le> i \<Longrightarrow> i < int (length xs) \<Longrightarrow> list_at xs i = Inr (xs ! nat i)"
  by (simp add: list_at_def Let_def)

lemma list_at_negative:
  "i < 0 \<Longrightarrow> - int (length xs) \<le> i \<Longrightarrow>
   list_at xs i = Inr (xs ! nat (i + int (length xs)))"
  by (simp add: list_at_def Let_def)

text \<open>One iteration of the loop, once the fetched tuple and its handler are known.\<close>

lemma body_fetch:
  "list_at (program s) i = Inr (op # rest) \<Longrightarrow> ops op = Some h \<Longrightarrow>
   body s i = h (set_reg s PC (IntV (i + 1))) rest"
  by (simp add: body_def Let_def)

text \<open>The four ways an iteration of \<open>run\<close> goes on.\<close>

lemma run_Raised:
  "regs s PC = Some (IntV i) \<Longrightarrow> body s i = Inl (e, s') \<Longrightarrow> e \<noteq> IndexError \<Longrightarrow>
   run s = Some (Raised e, s')"
  by (subst run.simps) simp

lemma run_IndexError:
  "regs s PC = Some (IntV i) \<Longrightarrow> body s i = Inl (IndexError, s') \<Longrightarrow>
   run s = Some (Returned (IntV 0), s')"
  by (subst run.simps) simp

lemma run_continue:
  "regs s PC = Some (IntV i) \<Longrightarrow> body s i = Inr s' \<Longrightarrow> run s = run s'"
  by (subst run.simps) simp

lemma run_None:
  "regs s PC = Some NoneV \<Longrightarrow> run s = Some (Returned NoneV, s)"
  by (subst run.simps) simp

section \<open>Termination by running off the program\<close>

text \<open>
  C1, as the code has it. The fetch \<open>self.program[self.regs[PC]]\<close> is a Python list
  access: it raises \<open>IndexError\<close>, which \<open>run\<close> turns into its return value \<open>0\<close>,
  when the program counter is at least the length of the program or below minus that
  length. Then no handler runs: the state \<open>run\<close> ends in is the state it was entered
  with.
\<close>

theorem run_pc_out_of_range:
  assumes "regs s PC = Some (IntV i)"
    and "int (length (program s)) \<le> i \<or> i < - int (length (program s))"
  shows "run s = Some (Returned (IntV 0), s)"
proof -
  have "body s i = Inl (IndexError, s)"
    using assms(2) by (simp add: body_def list_at_out_of_range)
  with assms(1) show ?thesis by (rule run_IndexError)
qed

theorem run_pc_out_of_range_witness:
  "regs (set_reg (init wrap_prog []) PC (IntV 2)) PC = Some (IntV 2) \<and>
   int (length (program (set_reg (init wrap_prog []) PC (IntV 2)))) \<le> 2 \<and>
   run (set_reg (init wrap_prog []) PC (IntV 2))
     = Some (Returned (IntV 0), set_reg (init wrap_prog []) PC (IntV 2))"
  using run_pc_out_of_range [of "set_reg (init wrap_prog []) PC (IntV 2)" 2]
  by (simp add: wrap_prog_def init_def)

text \<open>
  C1 as the claim words it, for every value outside \<open>[0, len(program))\<close>, fails on a
  negative program counter within the length of the program: \<open>wrap_prog\<close> jumps to
  \<open>-1\<close>, Python reads the last tuple of the program there, and the run ends with the
  \<open>SystemExit\<close> of that instruction instead of returning.
\<close>

theorem run_negative_pc_counterexample:
  "body (init wrap_prog []) 0 = Inr (set_reg (init wrap_prog []) PC (IntV (- 1))) \<and>
   regs (set_reg (init wrap_prog []) PC (IntV (- 1))) PC = Some (IntV (- 1)) \<and>
   map_option fst (run (set_reg (init wrap_prog []) PC (IntV (- 1)))) = Some (Raised SystemExit) \<and>
   map_option fst (run (init wrap_prog [])) = Some (Raised SystemExit)"
proof -
  let ?s = "init wrap_prog []"
  let ?s1 = "set_reg ?s PC (IntV (- 1))"
  have f0: "list_at (program ?s) 0 = Inr [IntV JMP, IntV (- 1)]"
    by (simp add: list_at_def init_def wrap_prog_def)
  have b0: "body ?s 0 = Inr ?s1"
    using body_fetch [OF f0] by (simp add: jmp_op_def set_reg_def)
  have f1: "list_at (program ?s1) (- 1) = Inr [IntV MATH, R_0, R_0, R_0, IntV 9]"
    by (simp add: list_at_def init_def wrap_prog_def)
  have "\<exists>s'. body ?s1 (- 1) = Inl (SystemExit, s')"
    using body_fetch [OF f1] by (simp add: math_op_def)
  then obtain s' where b1: "body ?s1 (- 1) = Inl (SystemExit, s')" ..
  have r1: "run ?s1 = Some (Raised SystemExit, s')"
    by (rule run_Raised [OF _ b1]) simp_all
  have "run ?s = run ?s1"
    by (rule run_continue [OF _ b0]) (simp add: init_def)
  with r1 b0 show ?thesis by simp
qed

section \<open>Faults\<close>

text \<open>
  C2. A pop from the empty stack raises \<open>IndexError\<close> in \<open>stck_op\<close>, and the
  \<open>except IndexError\<close> clause of \<open>run\<close>, which is there for the fetch, catches it
  as well: \<open>run\<close> returns \<open>0\<close>, what it returns when the program counter runs off
  the program. Evaluated on \<open>pop_prog\<close> from the initial state.
\<close>

theorem stck_pop_empty_returns_0:
  "stack (init pop_prog []) = [] \<and>
   stck_op (set_reg (init pop_prog []) PC (IntV 1)) [R_0, IntV POP]
     = Inl (IndexError, set_reg (init pop_prog []) PC (IntV 1)) \<and>
   run (init pop_prog []) = Some (Returned (IntV 0), set_reg (init pop_prog []) PC (IntV 1))"
proof -
  let ?s = "init pop_prog []"
  let ?s1 = "set_reg ?s PC (IntV 1)"
  have h: "stck_op ?s1 [R_0, IntV POP] = Inl (IndexError, ?s1)"
    by (simp add: stck_op_def init_def)
  have f: "list_at (program ?s) 0 = Inr [IntV STCK, R_0, IntV POP]"
    by (simp add: list_at_def init_def pop_prog_def)
  have b: "body ?s 0 = Inl (IndexError, ?s1)"
    using body_fetch [OF f] h by simp
  have r: "run ?s = Some (Returned (IntV 0), ?s1)"
    by (rule run_IndexError [OF _ b]) (simp add: init_def)
  from h r show ?thesis by (simp add: init_def)
qed

text \<open>
  C3, as the code has it. A load whose source operand is not the input address
  \<open>0xff00\<close>, from an address that data memory does not hold, does not load a zero:
  \<open>self.mem[...]\<close> raises Python's \<open>KeyError\<close> with that address, \<open>mem_op\<close> changes
  nothing (no register receives a value), and \<open>run\<close>, which catches \<open>IndexError\<close>
  only, ends with that exception. The handler runs in the state after the program
  counter has advanced. \<open>KeyError\<close> is the exception of every missing dictionary key,
  so it is the kind a register that does not exist and an opcode without a handler
  raise as well.
\<close>

theorem mem_load_unset:
  assumes "regs s PC = Some (IntV i)"
    and "list_at (program s) i = Inr (IntV MEM # dst # src # IntV LOAD # xs)"
    and "src \<noteq> IntV IO_IN"
    and "regs (set_reg s PC (IntV (i + 1))) src = Some a"
    and "mem s a = None"
  shows "mem_op (set_reg s PC (IntV (i + 1))) (dst # src # IntV LOAD # xs)
           = Inl (KeyError a, set_reg s PC (IntV (i + 1))) \<and>
         run s = Some (Raised (KeyError a), set_reg s PC (IntV (i + 1)))"
proof -
  let ?s1 = "set_reg s PC (IntV (i + 1))"
  have h: "mem_op ?s1 (dst # src # IntV LOAD # xs) = Inl (KeyError a, ?s1)"
    using assms(3-5) by (simp add: mem_op_def)
  have "body s i = Inl (KeyError a, ?s1)"
    using body_fetch [OF assms(2)] h by simp
  from run_Raised [OF assms(1) this] h show ?thesis by simp
qed

theorem mem_load_unset_witness:
  "mem (init load_prog []) (IntV 0) = None \<and>
   mem_op (set_reg (init load_prog []) PC (IntV 1)) [R_0, R_1, IntV LOAD]
     = Inl (KeyError (IntV 0), set_reg (init load_prog []) PC (IntV 1)) \<and>
   run (init load_prog [])
     = Some (Raised (KeyError (IntV 0)), set_reg (init load_prog []) PC (IntV 1))"
  using mem_load_unset [of "init load_prog []" 0 R_0 R_1 "[]" "IntV 0"]
  by (simp add: init_def load_prog_def list_at_def)

text \<open>
  C3 as the claim words it, with an error kind of its own for the unset read, fails:
  the read of the unset address \<open>6\<close> in \<open>unset_prog\<close> and the dispatch of the
  opcode \<open>6\<close> in \<open>log_prog\<close> leave \<open>run\<close> with one and the same exception,
  \<open>KeyError(6)\<close>.
\<close>

theorem mem_load_unset_kind_counterexample:
  "map_option fst (run (init unset_prog [])) = Some (Raised (KeyError (IntV 6))) \<and>
   map_option fst (run (init log_prog [])) = Some (Raised (KeyError (IntV 6)))"
proof -
  let ?s = "init unset_prog []"
  let ?s1 = "set_reg (set_reg ?s PC (IntV 1)) R_1 (IntV 6)"
  let ?s2 = "set_reg ?s1 PC (IntV 2)"
  have f0: "list_at (program ?s) 0 = Inr [IntV LIMM, R_1, IntV 6]"
    by (simp add: list_at_def init_def unset_prog_def)
  have b0: "body ?s 0 = Inr ?s1"
    using body_fetch [OF f0] by (simp add: limm_op_def)
  have f1: "list_at (program ?s1) 1 = Inr [IntV MEM, R_0, R_1, IntV LOAD]"
    by (simp add: list_at_def init_def unset_prog_def)
  have m: "mem ?s2 (IntV 6) = None"
    by (simp add: init_def)
  have h1: "mem_op ?s2 [R_0, R_1, IntV LOAD] = Inl (KeyError (IntV 6), ?s2)"
    using m by (simp add: mem_op_def)
  have b1: "body ?s1 1 = Inl (KeyError (IntV 6), ?s2)"
    using body_fetch [OF f1] h1 by simp
  have "run ?s = run ?s1"
    by (rule run_continue [OF _ b0]) (simp add: init_def)
  also have "\<dots> = Some (Raised (KeyError (IntV 6)), ?s2)"
    by (rule run_Raised [OF _ b1]) simp_all
  finally have u: "map_option fst (run ?s) = Some (Raised (KeyError (IntV 6)))"
    by simp
  let ?t = "init log_prog []"
  let ?t1 = "set_reg ?t PC (IntV 1)"
  have g0: "list_at (program ?t) 0 = Inr [IntV LOG]"
    by (simp add: list_at_def init_def log_prog_def)
  have c0: "body ?t 0 = Inl (KeyError (IntV 6), ?t1)"
    using g0 by (simp add: body_def Let_def)
  have "run ?t = Some (Raised (KeyError (IntV 6)), ?t1)"
    by (rule run_Raised [OF _ c0]) (simp_all add: init_def)
  then have l: "map_option fst (run ?t) = Some (Raised (KeyError (IntV 6)))"
    by simp
  from u l show ?thesis by simp
qed

text \<open>
  C9. \<open>mem_op\<close> and \<open>stck_op\<close> have no \<open>else\<close> branch: with any other mode operand
  they return without touching the machine.
\<close>

theorem mem_stck_other_mode_noop:
  "(mode \<noteq> IntV LOAD \<and> mode \<noteq> IntV STOR \<longrightarrow> mem_op s (dst # src # mode # xs) = Inr s) \<and>
   (mode \<noteq> IntV PUSH \<and> mode \<noteq> IntV POP \<longrightarrow> stck_op s (reg # mode # xs) = Inr s)"
  by (simp add: mem_op_def stck_op_def)

theorem mem_stck_other_mode_noop_witness:
  "mem_op (init [] []) [R_0, R_1, IntV 7] = Inr (init [] []) \<and>
   stck_op (init [] []) [R_0, IntV 7] = Inr (init [] [])"
  using mem_stck_other_mode_noop [of "IntV 7" "init [] []" R_0 R_1 "[]" R_0]
  by simp

section \<open>Arithmetic\<close>

text \<open>
  C5. With a divisor other than zero, mode \<open>DIV\<close> of \<open>MATH\<close> and of \<open>MATHI\<close> stores
  the quotient rounded down, the floor of the exact quotient; \<open>-7\<close> by \<open>2\<close> gives
  \<open>-4\<close>.
\<close>

theorem div_is_floor:
  assumes "b \<noteq> 0"
  shows "(regs s src1 = Some (IntV a) \<and> regs s src2 = Some (IntV b) \<longrightarrow>
           math_op s (dst # src1 # src2 # IntV DIV # xs)
             = Inr (set_reg s dst (IntV \<lfloor>real_of_int a / real_of_int b\<rfloor>))) \<and>
         (regs s dst = Some (IntV a) \<longrightarrow>
           mathi_op s (dst # IntV DIV # IntV b # xs)
             = Inr (set_reg s dst (IntV \<lfloor>real_of_int a / real_of_int b\<rfloor>)))"
  using assms
  by (simp add: math_op_def mathi_op_def reg_binop_def reg_imm_def py_floordiv_def
      floor_divide_of_int_eq)

theorem div_is_floor_witness:
  "math_op (set_reg (set_reg (init [] []) R_0 (IntV (- 7))) R_1 (IntV 2))
       [R_0, R_0, R_1, IntV DIV]
     = Inr (set_reg (set_reg (set_reg (init [] []) R_0 (IntV (- 7))) R_1 (IntV 2))
              R_0 (IntV (- 4))) \<and>
   mathi_op (set_reg (set_reg (init [] []) R_0 (IntV (- 7))) R_1 (IntV 2))
       [R_0, IntV DIV, IntV 2]
     = Inr (set_reg (set_reg (set_reg (init [] []) R_0 (IntV (- 7))) R_1 (IntV 2))
              R_0 (IntV (- 4)))"
  using div_is_floor [of 2 "set_reg (set_reg (init [] []) R_0 (IntV (- 7))) R_1 (IntV 2)"
      R_0 "- 7" R_1 R_0 "[]"]
  by simp

text \<open>
  The \<open>else\<close> branches of \<open>math_op\<close>, \<open>mathi_op\<close> and \<open>comp_op\<close>: print the message,
  then \<open>quit()\<close>.
\<close>

lemma math_op_bad_mode:
  "mode \<notin> set [IntV ADD, IntV SUB, IntV MULT, IntV DIV] \<Longrightarrow>
   math_op s (dst # src1 # src2 # mode # xs)
     = Inl (SystemExit, print s (OutMsg ''ERROR(math_op): math mode flag not found''))"
  by (simp add: math_op_def)

lemma mathi_op_bad_mode:
  "mode \<notin> set [IntV ADD, IntV SUB, IntV MULT, IntV DIV] \<Longrightarrow>
   mathi_op s (dst # mode # imm # xs)
     = Inl (SystemExit,
            print s (OutMsgFmt ''ERROR(mathi_op): math mode flag not found ({})'' mode))"
  by (simp add: mathi_op_def)

lemma comp_op_bad_mode:
  "mode \<notin> set [IntV EQ, IntV NEQ, IntV LT, IntV GT, IntV LTE, IntV GTE] \<Longrightarrow>
   comp_op s (reg1 # reg2 # mode # xs)
     = Inl (SystemExit, print s (OutMsg ''ERROR(comp_op): comparison mode flag not found.''))"
  by (simp add: comp_op_def)

lemma length_gt3: "3 < length xs \<Longrightarrow> \<exists>a b c d ys. xs = a # b # c # d # ys"
  by (cases xs; simp; rename_tac a t; case_tac t; simp; rename_tac b u; case_tac u; simp;
      rename_tac c w; case_tac w; simp)

lemma length_gt2: "2 < length xs \<Longrightarrow> \<exists>a b c ys. xs = a # b # c # ys"
  by (cases xs; simp; rename_tac a t; case_tac t; simp; rename_tac b u; case_tac u; simp)

text \<open>
  C8. When the loop fetches a \<open>MATH\<close>, \<open>MATHI\<close> or \<open>COMP\<close> tuple whose mode is none
  of the modes the handler knows, the handler prints its message and calls \<open>quit()\<close>:
  the iteration ends in \<open>SystemExit\<close> with nothing changed but the advanced program
  counter and the printed message, and \<open>run\<close> does not catch it, so it reaches the
  caller of \<open>run\<close> as that exception and not as a return value.
\<close>

theorem bad_mode_raises:
  assumes "regs s PC = Some (IntV i)"
    and "list_at (program s) i = Inr ins"
    and "bad_mode_instr ins"
  shows "\<exists>msg. body s i = Inl (SystemExit, print (set_reg s PC (IntV (i + 1))) msg) \<and>
               run s = Some (Raised SystemExit, print (set_reg s PC (IntV (i + 1))) msg)"
proof -
  let ?s1 = "set_reg s PC (IntV (i + 1))"
  obtain op rest where ins: "ins = op # rest"
    using assms(3) by (cases ins) (simp_all add: bad_mode_instr_def)
  have "\<exists>msg. body s i = Inl (SystemExit, print ?s1 msg)"
  proof -
    consider
      (math) "op = IntV MATH" "3 < length rest"
        "rest ! 3 \<notin> set [IntV ADD, IntV SUB, IntV MULT, IntV DIV]"
    | (mathi) "op = IntV MATHI" "2 < length rest"
        "rest ! 1 \<notin> set [IntV ADD, IntV SUB, IntV MULT, IntV DIV]"
    | (comp) "op = IntV COMP" "2 < length rest"
        "rest ! 2 \<notin> set [IntV EQ, IntV NEQ, IntV LT, IntV GT, IntV LTE, IntV GTE]"
      using assms(3) unfolding ins bad_mode_instr_def by auto
    then show ?thesis
    proof cases
      case math
      from length_gt3 [OF math(2)] obtain a b c d ys where r: "rest = a # b # c # d # ys"
        by blast
      have f: "list_at (program s) i = Inr (IntV MATH # a # b # c # d # ys)"
        using assms(2) ins math(1) r by simp
      from math(3) r have "d \<notin> set [IntV ADD, IntV SUB, IntV MULT, IntV DIV]" by simp
      from math_op_bad_mode [OF this] show ?thesis
        by (auto simp: body_fetch [OF f])
    next
      case mathi
      from length_gt2 [OF mathi(2)] obtain a b c ys where r: "rest = a # b # c # ys"
        by blast
      have f: "list_at (program s) i = Inr (IntV MATHI # a # b # c # ys)"
        using assms(2) ins mathi(1) r by simp
      from mathi(3) r have "b \<notin> set [IntV ADD, IntV SUB, IntV MULT, IntV DIV]" by simp
      from mathi_op_bad_mode [OF this] show ?thesis
        by (auto simp: body_fetch [OF f])
    next
      case comp
      from length_gt2 [OF comp(2)] obtain a b c ys where r: "rest = a # b # c # ys"
        by blast
      have f: "list_at (program s) i = Inr (IntV COMP # a # b # c # ys)"
        using assms(2) ins comp(1) r by simp
      from comp(3) r
      have "c \<notin> set [IntV EQ, IntV NEQ, IntV LT, IntV GT, IntV LTE, IntV GTE]" by simp
      from comp_op_bad_mode [OF this] show ?thesis
        by (auto simp: body_fetch [OF f])
    qed
  qed
  then obtain msg where b: "body s i = Inl (SystemExit, print ?s1 msg)" ..
  have "run s = Some (Raised SystemExit, print ?s1 msg)"
    by (rule run_Raised [OF assms(1) b]) simp
  with b show ?thesis by blast
qed

theorem bad_mode_raises_witness:
  "regs (set_reg (init wrap_prog []) PC (IntV 1)) PC = Some (IntV 1) \<and>
   list_at (program (set_reg (init wrap_prog []) PC (IntV 1))) 1
     = Inr [IntV MATH, R_0, R_0, R_0, IntV 9] \<and>
   map_option fst (run (set_reg (init wrap_prog []) PC (IntV 1))) = Some (Raised SystemExit)"
proof -
  have b: "bad_mode_instr [IntV MATH, R_0, R_0, R_0, IntV 9]"
    by (simp add: bad_mode_instr_def)
  have f: "list_at (program (set_reg (init wrap_prog []) PC (IntV 1))) 1
     = Inr [IntV MATH, R_0, R_0, R_0, IntV 9]"
    by (simp add: init_def wrap_prog_def list_at_def)
  have "\<exists>msg. body (set_reg (init wrap_prog []) PC (IntV 1)) 1
            = Inl (SystemExit,
                   print (set_reg (set_reg (init wrap_prog []) PC (IntV 1)) PC (IntV (1 + 1))) msg) \<and>
          run (set_reg (init wrap_prog []) PC (IntV 1))
            = Some (Raised SystemExit,
                    print (set_reg (set_reg (init wrap_prog []) PC (IntV 1)) PC (IntV (1 + 1))) msg)"
    by (rule bad_mode_raises [OF _ f b]) simp
  with f show ?thesis by auto
qed

section \<open>Branches\<close>

lemma comp_jmpc_falls_through:
  assumes "list_at (program s) i = Inr (IntV COMP # reg1 # reg2 # IntV EQ # ys)"
    and "list_at (program s) (i + 1) = Inr (IntV JMPC # t # xs)"
    and "regs (set_reg s PC (IntV (i + 1))) reg1 = Some v"
    and "regs (set_reg s PC (IntV (i + 1))) reg2 = Some v"
  shows "body s i = Inr ((set_reg s PC (IntV (i + 1)))\<lparr>cond := 1\<rparr>) \<and>
         body ((set_reg s PC (IntV (i + 1)))\<lparr>cond := 1\<rparr>) (i + 1)
           = Inr ((set_reg s PC (IntV (i + 2)))\<lparr>cond := 1\<rparr>)"
proof -
  let ?s1 = "(set_reg s PC (IntV (i + 1)))\<lparr>cond := 1\<rparr>"
  have b1: "body s i = Inr ?s1"
    using assms(3,4)
    by (simp add: body_fetch [OF assms(1)] comp_op_def reg_cmp_def int_of_bool_def)
  have f: "list_at (program ?s1) (i + 1) = Inr (IntV JMPC # t # xs)"
    using assms(2) by simp
  have "body ?s1 (i + 1) = jmpc_op (set_reg ?s1 PC (IntV (i + 1 + 1))) (t # xs)"
    by (rule body_fetch [OF f]) simp
  then have "body ?s1 (i + 1) = Inr ((set_reg s PC (IntV (i + 2)))\<lparr>cond := 1\<rparr>)"
    by (simp add: jmpc_op_def set_reg_def add.commute)
  with b1 show ?thesis by simp
qed

text \<open>
  C4. \<open>jmpc_op\<close> with target \<open>t\<close> stores \<open>t\<close> in \<open>regs[PC]\<close> when the condition flag
  is \<open>0\<close> and otherwise returns the machine as it is. \<open>COMP\<close> with mode \<open>EQ\<close> on two
  registers holding the same value sets the flag to \<open>1\<close>, so a \<open>JMPC\<close> after it does
  nothing; in the loop, the two instructions at \<open>i\<close> and \<open>i + 1\<close> leave the program
  counter at \<open>i + 2\<close>.
\<close>

theorem jmpc_polarity:
  "jmpc_op s (t # xs) = (if cond s = 0 then Inr (set_reg s PC t) else Inr s) \<and>
   (regs s reg1 = Some v \<and> regs s reg2 = Some v \<longrightarrow>
      comp_op s (reg1 # reg2 # IntV EQ # ys) = Inr (s\<lparr>cond := 1\<rparr>) \<and>
      jmpc_op (s\<lparr>cond := 1\<rparr>) (t # xs) = Inr (s\<lparr>cond := 1\<rparr>)) \<and>
   (list_at (program s) i = Inr (IntV COMP # reg1 # reg2 # IntV EQ # ys) \<and>
    list_at (program s) (i + 1) = Inr (IntV JMPC # t # xs) \<and>
    regs (set_reg s PC (IntV (i + 1))) reg1 = Some w \<and>
    regs (set_reg s PC (IntV (i + 1))) reg2 = Some w \<longrightarrow>
      body s i = Inr ((set_reg s PC (IntV (i + 1)))\<lparr>cond := 1\<rparr>) \<and>
      body ((set_reg s PC (IntV (i + 1)))\<lparr>cond := 1\<rparr>) (i + 1)
        = Inr ((set_reg s PC (IntV (i + 2)))\<lparr>cond := 1\<rparr>))"
proof (intro conjI impI)
  show "jmpc_op s (t # xs) = (if cond s = 0 then Inr (set_reg s PC t) else Inr s)"
    by (simp add: jmpc_op_def)
next
  assume "regs s reg1 = Some v \<and> regs s reg2 = Some v"
  then show "comp_op s (reg1 # reg2 # IntV EQ # ys) = Inr (s\<lparr>cond := 1\<rparr>)"
    by (simp add: comp_op_def reg_cmp_def int_of_bool_def)
next
  show "jmpc_op (s\<lparr>cond := 1\<rparr>) (t # xs) = Inr (s\<lparr>cond := 1\<rparr>)"
    by (simp add: jmpc_op_def)
next
  assume a: "list_at (program s) i = Inr (IntV COMP # reg1 # reg2 # IntV EQ # ys) \<and>
    list_at (program s) (i + 1) = Inr (IntV JMPC # t # xs) \<and>
    regs (set_reg s PC (IntV (i + 1))) reg1 = Some w \<and>
    regs (set_reg s PC (IntV (i + 1))) reg2 = Some w"
  then show "body s i = Inr ((set_reg s PC (IntV (i + 1)))\<lparr>cond := 1\<rparr>)"
    using comp_jmpc_falls_through [of s i reg1 reg2 ys t xs w] by blast
  from a show "body ((set_reg s PC (IntV (i + 1)))\<lparr>cond := 1\<rparr>) (i + 1)
        = Inr ((set_reg s PC (IntV (i + 2)))\<lparr>cond := 1\<rparr>)"
    using comp_jmpc_falls_through [of s i reg1 reg2 ys t xs w] by blast
qed

theorem jmpc_polarity_witness:
  "jmpc_op (init cmp_prog []) [IntV 7] = Inr (set_reg (init cmp_prog []) PC (IntV 7)) \<and>
   comp_op (init cmp_prog []) [R_0, R_1, IntV EQ] = Inr ((init cmp_prog [])\<lparr>cond := 1\<rparr>) \<and>
   jmpc_op ((init cmp_prog [])\<lparr>cond := 1\<rparr>) [IntV 7] = Inr ((init cmp_prog [])\<lparr>cond := 1\<rparr>) \<and>
   body (init cmp_prog []) 0 = Inr ((set_reg (init cmp_prog []) PC (IntV 1))\<lparr>cond := 1\<rparr>) \<and>
   body ((set_reg (init cmp_prog []) PC (IntV 1))\<lparr>cond := 1\<rparr>) 1
     = Inr ((set_reg (init cmp_prog []) PC (IntV 2))\<lparr>cond := 1\<rparr>)"
proof -
  have c: "cond (init cmp_prog []) = 0" by (simp add: init_def)
  have r: "regs (init cmp_prog []) R_0 = Some (IntV 0) \<and>
           regs (init cmp_prog []) R_1 = Some (IntV 0)"
    by (simp add: init_def)
  have f: "list_at (program (init cmp_prog [])) 0 = Inr [IntV COMP, R_0, R_1, IntV EQ] \<and>
    list_at (program (init cmp_prog [])) (0 + 1) = Inr [IntV JMPC, IntV 7] \<and>
    regs (set_reg (init cmp_prog []) PC (IntV (0 + 1))) R_0 = Some (IntV 0) \<and>
    regs (set_reg (init cmp_prog []) PC (IntV (0 + 1))) R_1 = Some (IntV 0)"
    by (simp add: init_def cmp_prog_def list_at_def)
  show ?thesis
    using jmpc_polarity [of "init cmp_prog []" "IntV 7" "[]" R_0 "IntV 0" R_1 "[]" 0 "IntV 0"]
      c r f
    by simp
qed

text \<open>
  C10. When the loop fetches a \<open>JMP\<close> or a \<open>JMPR\<close> with target \<open>None\<close>, or a
  \<open>JMPC\<close> with target \<open>None\<close> while the condition flag is \<open>0\<close>, the handler stores
  \<open>None\<close> in \<open>regs[PC]\<close>, the loop condition fails at once, and \<open>run\<close> ends in the
  state the handler left (nothing further runs) by returning \<open>None\<close>.
\<close>

theorem jump_to_None_halts:
  assumes "regs s PC = Some (IntV i)"
    and "list_at (program s) i = Inr (op # NoneV # xs)"
    and "op = IntV JMP \<or> (op = IntV JMPC \<and> cond s = 0) \<or> op = IntV JMPR"
  shows "\<exists>s'. body s i = Inr s' \<and> regs s' PC = Some NoneV \<and>
              run s = Some (Returned NoneV, s')"
proof -
  have "\<exists>s'. body s i = Inr s' \<and> regs s' PC = Some NoneV"
    using assms(3) body_fetch [OF assms(2)]
    by (auto simp: jmp_op_def jmpc_op_def jmpr_op_def Let_def)
  then obtain s' where b: "body s i = Inr s'" and p: "regs s' PC = Some NoneV" by blast
  have "run s = run s'" by (rule run_continue [OF assms(1) b])
  also have "\<dots> = Some (Returned NoneV, s')" by (rule run_None [OF p])
  finally show ?thesis using b p by blast
qed

theorem jump_to_None_halts_witness:
  "cond (init none_prog []) = 0 \<and>
   list_at (program (init none_prog [])) 0 = Inr [IntV JMPC, NoneV] \<and>
   map_option fst (run (init none_prog [])) = Some (Returned NoneV)"
proof -
  have f: "list_at (program (init none_prog [])) 0 = Inr [IntV JMPC, NoneV]"
    by (simp add: init_def none_prog_def list_at_def)
  have "\<exists>s'. body (init none_prog []) 0 = Inr s' \<and> regs s' PC = Some NoneV \<and>
              run (init none_prog []) = Some (Returned NoneV, s')"
    by (rule jump_to_None_halts [OF _ f]) (simp_all add: init_def)
  with f show ?thesis by (auto simp: init_def)
qed

section \<open>Call and return\<close>

text \<open>Only \<open>jmpr_op\<close> assigns the return-address register.\<close>

lemma attempt_Inr:
  "attempt s r k = Inr s' \<Longrightarrow> \<exists>x. r = Inr x \<and> k x = Inr s'"
  by (cases r) (simp_all add: attempt_def)

lemma print_ra [simp]: "ra (print s ev) = ra s"
  by (simp add: print_def)

lemma mov_op_ra: "mov_op s rest = Inr s' \<Longrightarrow> ra s' = ra s"
  unfolding mov_op_def by (auto dest!: attempt_Inr)

lemma mem_op_ra: "mem_op s rest = Inr s' \<Longrightarrow> ra s' = ra s"
  unfolding mem_op_def
  by (auto dest!: attempt_Inr split: if_splits list.splits in_line.splits)

lemma limm_op_ra: "limm_op s rest = Inr s' \<Longrightarrow> ra s' = ra s"
  unfolding limm_op_def by (auto dest!: attempt_Inr)

lemma math_op_ra: "math_op s rest = Inr s' \<Longrightarrow> ra s' = ra s"
  unfolding math_op_def reg_binop_def
  by (auto dest!: attempt_Inr split: if_splits)

lemma mathi_op_ra: "mathi_op s rest = Inr s' \<Longrightarrow> ra s' = ra s"
  unfolding mathi_op_def reg_imm_def
  by (auto dest!: attempt_Inr split: if_splits)

lemma comp_op_ra: "comp_op s rest = Inr s' \<Longrightarrow> ra s' = ra s"
  unfolding comp_op_def reg_cmp_def
  by (auto dest!: attempt_Inr split: if_splits)

lemma cnt_op_ra: "cnt_op s rest = Inr s' \<Longrightarrow> ra s' = ra s"
  unfolding cnt_op_def by (auto dest!: attempt_Inr)

lemma loop_op_ra: "loop_op s rest = Inr s' \<Longrightarrow> ra s' = ra s"
  unfolding loop_op_def Let_def
  by (auto dest!: attempt_Inr split: if_splits)

lemma jmp_op_ra: "jmp_op s rest = Inr s' \<Longrightarrow> ra s' = ra s"
  unfolding jmp_op_def by (auto dest!: attempt_Inr)

lemma jmpc_op_ra: "jmpc_op s rest = Inr s' \<Longrightarrow> ra s' = ra s"
  unfolding jmpc_op_def by (auto dest!: attempt_Inr split: if_splits)

lemma ret_op_ra: "ret_op s rest = Inr s' \<Longrightarrow> ra s' = ra s"
  unfolding ret_op_def by auto

lemma inc_op_ra: "inc_op s rest = Inr s' \<Longrightarrow> ra s' = ra s"
  unfolding inc_op_def by (auto dest!: attempt_Inr)

lemma dec_op_ra: "dec_op s rest = Inr s' \<Longrightarrow> ra s' = ra s"
  unfolding dec_op_def by (auto dest!: attempt_Inr)

lemma stck_op_ra: "stck_op s rest = Inr s' \<Longrightarrow> ra s' = ra s"
  unfolding stck_op_def
  by (auto dest!: attempt_Inr split: if_splits)

lemmas handlers_ra =
  mov_op_ra mem_op_ra limm_op_ra math_op_ra mathi_op_ra comp_op_ra cnt_op_ra loop_op_ra
  jmp_op_ra jmpc_op_ra ret_op_ra inc_op_ra dec_op_ra stck_op_ra

lemma ops_not_jmpr_ra:
  assumes "ops op = Some h" and "op \<noteq> IntV JMPR" and "h s rest = Inr s'"
  shows "ra s' = ra s"
  using assms unfolding ops_def
  by (auto split: if_splits dest: handlers_ra)

lemma body_ra:
  assumes "list_at (program s) i = Inr ins" and "idx ins 0 \<noteq> Inr (IntV JMPR)"
    and "body s i = Inr s'"
  shows "ra s' = ra s"
proof -
  from assms(3) assms(1) obtain op h where
    op: "idx ins 0 = Inr op" and h: "ops op = Some h"
    and r: "h (set_reg s PC (IntV (i + 1))) (drop 1 ins) = Inr s'"
    unfolding body_def Let_def
    by (auto dest!: attempt_Inr simp: getitem_def split: option.splits)
  from op assms(2) have "op \<noteq> IntV JMPR" by auto
  from ops_not_jmpr_ra [OF h this r] show ?thesis by simp
qed

lemma runs_without_jmpr_ra: "runs_without_jmpr s s' \<Longrightarrow> ra s' = ra s"
  by (induction rule: runs_without_jmpr.induct) (auto dest: body_ra)

text \<open>
  C6. The loop advances the program counter before it calls the handler
  (\<open>body_fetch\<close>), so a \<open>JMPR\<close> fetched at index \<open>i\<close> of the program stores \<open>i + 1\<close> in
  the return-address register and then the target in \<open>regs[PC]\<close>. After any number of
  further iterations that dispatch no \<open>JMPR\<close>, a \<open>RET\<close> stores \<open>i + 1\<close> in \<open>regs[PC]\<close>:
  the next fetch is the instruction after the \<open>JMPR\<close>.
\<close>

theorem jmpr_then_ret:
  assumes "regs s PC = Some (IntV i)"
    and "0 \<le> i" and "i < int (length (program s))"
    and "program s ! nat i = IntV JMPR # t # xs"
    and "runs_without_jmpr (set_reg (s\<lparr>ra := IntV (i + 1)\<rparr>) PC t) s2"
    and "regs s2 PC = Some (IntV j)"
    and "list_at (program s2) j = Inr (IntV RET # ys)"
  shows "body s i = Inr (set_reg (s\<lparr>ra := IntV (i + 1)\<rparr>) PC t) \<and>
         body s2 j = Inr (set_reg s2 PC (IntV (i + 1)))"
proof -
  let ?s1 = "set_reg (s\<lparr>ra := IntV (i + 1)\<rparr>) PC t"
  have f: "list_at (program s) i = Inr (IntV JMPR # t # xs)"
    using assms(2-4) by (simp add: list_at_in_range)
  have b1: "body s i = Inr ?s1"
    using assms(1) by (simp add: body_fetch [OF f] jmpr_op_def Let_def set_reg_def)
  have "ra s2 = ra ?s1" by (rule runs_without_jmpr_ra [OF assms(5)])
  then have r: "ra s2 = IntV (i + 1)" by simp
  have "body s2 j = Inr (set_reg s2 PC (IntV (i + 1)))"
    using r by (simp add: body_fetch [OF assms(7)] ret_op_def set_reg_def)
  with b1 show ?thesis by simp
qed

theorem jmpr_then_ret_witness:
  "body (init call_prog []) 0
     = Inr (set_reg ((init call_prog [])\<lparr>ra := IntV 1\<rparr>) PC (IntV 2)) \<and>
   body (set_reg ((init call_prog [])\<lparr>ra := IntV 1\<rparr>) PC (IntV 2)) 2
     = Inr (set_reg (set_reg (set_reg ((init call_prog [])\<lparr>ra := IntV 1\<rparr>) PC (IntV 2))
                    PC (IntV 3)) R_0 (IntV 1)) \<and>
   body (set_reg (set_reg (set_reg ((init call_prog [])\<lparr>ra := IntV 1\<rparr>) PC (IntV 2))
                    PC (IntV 3)) R_0 (IntV 1)) 3
     = Inr (set_reg (set_reg (set_reg (set_reg ((init call_prog [])\<lparr>ra := IntV 1\<rparr>)
                    PC (IntV 2)) PC (IntV 3)) R_0 (IntV 1)) PC (IntV 1))"
proof -
  let ?s = "init call_prog []"
  let ?s1 = "set_reg (?s\<lparr>ra := IntV (0 + 1)\<rparr>) PC (IntV 2)"
  let ?s2 = "set_reg (set_reg ?s1 PC (IntV 3)) R_0 (IntV 1)"
  have f: "list_at (program ?s1) 2 = Inr [IntV INC, R_0]"
    by (simp add: init_def call_prog_def list_at_def)
  have b: "body ?s1 2 = Inr ?s2"
    using body_fetch [OF f] by (simp add: inc_op_def py_add_def init_def)
  have w: "runs_without_jmpr ?s1 ?s2"
    by (rule runs_without_jmpr.iter [OF runs_without_jmpr.here _ f _ b]) simp_all
  have "body ?s 0 = Inr ?s1 \<and> body ?s2 3 = Inr (set_reg ?s2 PC (IntV (0 + 1)))"
    by (rule jmpr_then_ret [OF _ _ _ _ w, where j = 3 and xs = "[]" and ys = "[]"])
       (simp_all add: init_def call_prog_def list_at_def)
  with b show ?thesis by simp
qed

section \<open>The counted loop\<close>

lemma loop_op_step:
  "regs s R_CNT = Some (IntV c) \<Longrightarrow>
   loop_op s (t # xs) =
     (if c - 1 \<noteq> 0 then Inr (set_reg (set_reg s R_CNT (IntV (c - 1))) PC t)
      else Inr (set_reg s R_CNT (IntV (c - 1))))"
  by (simp add: loop_op_def py_sub_def truthy_def Let_def)

text \<open>
  From the body of \<open>count_prog\<close> with \<open>k + 1\<close> in the count register, the run ends by
  running off the program after \<open>k + 1\<close> more increments of \<open>R_0\<close>.
\<close>

lemma count_loop:
  assumes "program s = count_prog n"
    and "regs s PC = Some (IntV 1)"
    and "regs s R_CNT = Some (IntV (int k + 1))"
    and "regs s R_0 = Some (IntV r)"
  shows "\<exists>s'. run s = Some (Returned (IntV 0), s') \<and>
              regs s' R_0 = Some (IntV (r + int k + 1)) \<and>
              regs s' R_CNT = Some (IntV 0) \<and> regs s' PC = Some (IntV 3)"
  using assms
proof (induction k arbitrary: s r)
  case 0
  let ?s1 = "set_reg (set_reg s PC (IntV 2)) R_0 (IntV (r + 1))"
  let ?s2 = "set_reg (set_reg ?s1 PC (IntV 3)) R_CNT (IntV 0)"
  have f1: "list_at (program s) 1 = Inr [IntV INC, R_0]"
    using "0.prems"(1) by (simp add: count_prog_def list_at_def)
  have b1: "body s 1 = Inr ?s1"
    using "0.prems"(4) by (simp add: body_fetch [OF f1] inc_op_def py_add_def)
  have f2: "list_at (program ?s1) 2 = Inr [IntV LOOP, IntV 1]"
    using "0.prems"(1) by (simp add: count_prog_def list_at_def)
  have c2: "regs (set_reg ?s1 PC (IntV 3)) R_CNT = Some (IntV 1)"
    using "0.prems"(3) by simp
  have h2: "loop_op (set_reg ?s1 PC (IntV 3)) [IntV 1] = Inr ?s2"
    using loop_op_step [OF c2] by simp
  have b2: "body ?s1 2 = Inr ?s2"
    using body_fetch [OF f2] h2 by simp
  have f3: "list_at (program s) 3 = Inl IndexError"
    using "0.prems"(1) by (simp add: count_prog_def list_at_def)
  have b3: "body ?s2 3 = Inl (IndexError, ?s2)"
    using f3 by (simp add: body_def)
  have "run s = run ?s1" by (rule run_continue [OF "0.prems"(2) b1])
  also have "\<dots> = run ?s2" by (rule run_continue [OF _ b2]) simp
  also have "\<dots> = Some (Returned (IntV 0), ?s2)" by (rule run_IndexError [OF _ b3]) simp
  finally show ?case by simp
next
  case (Suc k)
  let ?s1 = "set_reg (set_reg s PC (IntV 2)) R_0 (IntV (r + 1))"
  let ?s2 = "set_reg (set_reg (set_reg ?s1 PC (IntV 3)) R_CNT (IntV (int k + 1))) PC (IntV 1)"
  have f1: "list_at (program s) 1 = Inr [IntV INC, R_0]"
    using Suc.prems(1) by (simp add: count_prog_def list_at_def)
  have b1: "body s 1 = Inr ?s1"
    using Suc.prems(4) by (simp add: body_fetch [OF f1] inc_op_def py_add_def)
  have f2: "list_at (program ?s1) 2 = Inr [IntV LOOP, IntV 1]"
    using Suc.prems(1) by (simp add: count_prog_def list_at_def)
  have c2: "regs (set_reg ?s1 PC (IntV 3)) R_CNT = Some (IntV (int k + 2))"
    using Suc.prems(3) by simp
  have h2: "loop_op (set_reg ?s1 PC (IntV 3)) [IntV 1] = Inr ?s2"
    using loop_op_step [OF c2, of "IntV 1" "[]"] by (simp add: add.commute)
  have b2: "body ?s1 2 = Inr ?s2"
    using body_fetch [OF f2] h2 by simp
  have "run s = run ?s1" by (rule run_continue [OF Suc.prems(2) b1])
  also have "\<dots> = run ?s2" by (rule run_continue [OF _ b2]) simp
  finally have e: "run s = run ?s2" .
  have "\<exists>s'. run ?s2 = Some (Returned (IntV 0), s') \<and>
             regs s' R_0 = Some (IntV (r + 1 + int k + 1)) \<and>
             regs s' R_CNT = Some (IntV 0) \<and> regs s' PC = Some (IntV 3)"
    by (rule Suc.IH) (simp_all add: Suc.prems(1))
  with e show ?case by (simp add: add.commute add.left_commute)
qed

lemma count_prog_runs:
  assumes "1 \<le> n"
  shows "\<exists>s'. run (init (count_prog n) inp) = Some (Returned (IntV 0), s') \<and>
              regs s' R_0 = Some (IntV n) \<and> regs s' R_CNT = Some (IntV 0) \<and>
              regs s' PC = Some (IntV 3)"
proof -
  let ?s = "init (count_prog n) inp"
  let ?s1 = "set_reg (set_reg ?s PC (IntV 1)) R_CNT (IntV n)"
  have f0: "list_at (program ?s) 0 = Inr [IntV CNT, IntV n]"
    by (simp add: init_def count_prog_def list_at_def)
  have b0: "body ?s 0 = Inr ?s1"
    by (simp add: body_fetch [OF f0] cnt_op_def)
  have e: "run ?s = run ?s1"
    by (rule run_continue [OF _ b0]) (simp add: init_def)
  define k where "k = nat (n - 1)"
  have n: "n = int k + 1" using assms by (simp add: k_def)
  have "\<exists>s'. run ?s1 = Some (Returned (IntV 0), s') \<and>
             regs s' R_0 = Some (IntV (0 + int k + 1)) \<and>
             regs s' R_CNT = Some (IntV 0) \<and> regs s' PC = Some (IntV 3)"
    by (rule count_loop [where n = n]) (simp_all add: init_def n)
  with e n show ?thesis by simp
qed

text \<open>
  C7. \<open>loop_op\<close> subtracts one from \<open>regs[CNT]\<close> and stores the target in \<open>regs[PC]\<close>
  exactly when the new count is not zero. So the counted loop \<open>count_prog n\<close>, for a
  count \<open>n\<close> of at least one and for \<open>3\<close> in particular, runs its body \<open>n\<close> times
  (\<open>R_0\<close> ends as \<open>n\<close>), falls through when the count reaches \<open>0\<close>, and the run ends
  past the last instruction.
\<close>

theorem loop_counts_down:
  "(regs s R_CNT = Some (IntV c) \<longrightarrow>
      loop_op s (t # xs) =
        (if c - 1 \<noteq> 0 then Inr (set_reg (set_reg s R_CNT (IntV (c - 1))) PC t)
         else Inr (set_reg s R_CNT (IntV (c - 1))))) \<and>
   (1 \<le> n \<longrightarrow>
      (\<exists>s'. run (init (count_prog n) inp) = Some (Returned (IntV 0), s') \<and>
            regs s' R_0 = Some (IntV n) \<and> regs s' R_CNT = Some (IntV 0) \<and>
            regs s' PC = Some (IntV 3)))"
  using loop_op_step count_prog_runs by blast

theorem loop_counts_down_witness:
  "loop_op (set_reg (init [] []) R_CNT (IntV 3)) [IntV 1]
     = Inr (set_reg (set_reg (set_reg (init [] []) R_CNT (IntV 3)) R_CNT (IntV 2))
              PC (IntV 1)) \<and>
   (\<exists>s'. run (init (count_prog 3) []) = Some (Returned (IntV 0), s') \<and>
         regs s' R_0 = Some (IntV 3) \<and> regs s' R_CNT = Some (IntV 0) \<and>
         regs s' PC = Some (IntV 3))"
  using loop_counts_down [of "set_reg (init [] []) R_CNT (IntV 3)" 3 "IntV 1" "[]" 3 "[]"]
  by simp

end
